theory Spec2Isabelle
  imports Complex_Main "HOL-Library.Multiset"
begin

section \<open>Series and errors\<close>

text \<open>
  The program is a pipeline over pandas containers. A daily series is modelled as the
  list of its rows in index order: the day number (days since the Unix epoch) and the
  cell, where \<open>None\<close> is pandas' NaN ("no data"). Numbers are exact: Python's unbounded
  integers are \<open>int\<close>, and float cells are taken as real numbers, so rounding, overflow
  and the representable range of timestamps are not part of the model. The pandas and
  numpy operations the source calls are written out as the library computes them.
\<close>

type_synonym series = "(int \<times> real option) list"

datatype py_error =
    KeyError string
  | IndexError string
  | ValueError string
  | TypeError string
  | OverflowError string
  | ClientError string

definition index_of :: "series \<Rightarrow> int list" where
  "index_of s = map fst s"

definition values_of :: "series \<Rightarrow> real option list" where
  "values_of s = map snd s"

definition with_values :: "series \<Rightarrow> real option list \<Rightarrow> series" where
  "with_values s vs = zip (index_of s) vs"

text \<open>Comparisons with a NaN operand are False.\<close>

definition nan_less :: "real option \<Rightarrow> real \<Rightarrow> bool" where
  "nan_less v c = (case v of None \<Rightarrow> False | Some x \<Rightarrow> x < c)"

definition nan_ge :: "real option \<Rightarrow> real option \<Rightarrow> bool" where
  "nan_ge a b = (case a of None \<Rightarrow> False | Some x \<Rightarrow> (case b of None \<Rightarrow> False | Some y \<Rightarrow> y \<le> x))"

section \<open>DailyAggregator: \<open>aggregate_to_day_based_prices\<close>\<close>

text \<open>
  A raw observation is one item of the store's answer: \<open>UnixDateTime\<close> (seconds) and
  \<open>Price\<close>.
  \<^verbatim>\<open>
  df = pd.DataFrame.from_dict(raw_prices)
  series = df.set_index('UnixDateTime')
  series.index = pd.to_datetime(pd.to_numeric(series.index), unit='s')
  series['Price'] = pd.to_numeric(series['Price'])
  daily_summary = series.resample('D').mean()
  \<close>
  A frame built from an empty list has no columns, so \<open>set_index\<close> raises KeyError.
  \<open>resample('D')\<close> makes one bin per calendar day from the day of the earliest
  timestamp to the day of the latest one; \<open>mean\<close> of a bin without rows is NaN.
\<close>

type_synonym raw_price = "int \<times> real"

definition set_index_UnixDateTime :: "raw_price list \<Rightarrow> py_error + raw_price list" where
  "set_index_UnixDateTime df =
     (if df = [] then Inl (KeyError ''UnixDateTime'') else Inr df)"

definition day_of :: "int \<Rightarrow> int" where
  "day_of t = t div 86400"

definition bin_mean :: "real list \<Rightarrow> real option" where
  "bin_mean ps = (if ps = [] then None else Some (sum_list ps / real (length ps)))"

definition resample_D_mean :: "raw_price list \<Rightarrow> series" where
  "resample_D_mean rows =
     (case rows of
        [] \<Rightarrow> []
      | r # rs \<Rightarrow>
          (let first_day = day_of (fold min (map fst rs) (fst r));
               last_day = day_of (fold max (map fst rs) (fst r))
           in map (\<lambda>d. (d, bin_mean (map snd (filter (\<lambda>row. day_of (fst row) = d) rows))))
                [first_day..last_day]))"

definition aggregate_to_day_based_prices :: "raw_price list \<Rightarrow> py_error + series" where
  "aggregate_to_day_based_prices raw_prices =
     (case set_index_UnixDateTime raw_prices of
        Inl e \<Rightarrow> Inl e
      | Inr series \<Rightarrow> Inr (resample_D_mean series))"

section \<open>VolatilityEstimator: \<open>simple_ewvol_calc\<close>\<close>

text \<open>
  \<^verbatim>\<open>vol = daily_returns.ewm(adjust=True, span=days, min_periods=min_periods).std()\<close>
  with \<open>days = 35\<close> and \<open>min_periods = 10\<close>. pandas computes the bias-corrected
  exponentially weighted variance by one pass over the column (\<open>ewmcov\<close> of the column
  with itself, \<open>adjust=True\<close>, \<open>ignore_na=False\<close>, \<open>bias=False\<close>) and takes the
  square root, with negative variances set to zero (\<open>zsqrt\<close>). The state of the pass:
\<close>

record ewm_state =
  mean_x :: "real option"
  cov :: real
  sum_wt :: real
  sum_wt2 :: real
  old_wt :: real
  nobs :: nat

definition com_of_span :: "real \<Rightarrow> real" where
  "com_of_span spn = (spn - 1) / 2"

definition old_wt_factor :: "real \<Rightarrow> real" where
  "old_wt_factor com = 1 - 1 / (1 + com)"

definition ewm_init :: "real option \<Rightarrow> ewm_state" where
  "ewm_init x0 =
     \<lparr>mean_x = x0, cov = 0, sum_wt = 1, sum_wt2 = 1, old_wt = 1,
      nobs = (if x0 = None then 0 else 1)\<rparr>"

definition ewm_step :: "real \<Rightarrow> ewm_state \<Rightarrow> real option \<Rightarrow> ewm_state" where
  "ewm_step com st cur =
     (let f = old_wt_factor com;
          new_wt = 1;
          n = nobs st + (if cur = None then 0 else 1)
      in case mean_x st of
           None \<Rightarrow> st\<lparr>mean_x := cur, nobs := n\<rparr>
         | Some old_mean \<Rightarrow>
             (let sw = sum_wt st * f;
                  sw2 = sum_wt2 st * (f * f);
                  ow = old_wt st * f
              in case cur of
                   None \<Rightarrow> st\<lparr>sum_wt := sw, sum_wt2 := sw2, old_wt := ow, nobs := n\<rparr>
                 | Some x \<Rightarrow>
                     (let m = (if old_mean \<noteq> x
                               then (ow * old_mean + new_wt * x) / (ow + new_wt)
                               else old_mean);
                          c = (ow * (cov st + (old_mean - m) * (old_mean - m))
                               + new_wt * ((x - m) * (x - m))) / (ow + new_wt)
                      in \<lparr>mean_x = Some m, cov = c, sum_wt = sw + new_wt,
                          sum_wt2 = sw2 + new_wt * new_wt, old_wt = ow + new_wt,
                          nobs = n\<rparr>)))"

definition ewm_out :: "nat \<Rightarrow> ewm_state \<Rightarrow> real option" where
  "ewm_out minp st =
     (if minp \<le> nobs st
      then (let numerator = sum_wt st * sum_wt st;
                denominator = numerator - sum_wt2 st
            in if 0 < denominator then Some (numerator / denominator * cov st) else None)
      else None)"

fun ewm_loop :: "real \<Rightarrow> nat \<Rightarrow> ewm_state \<Rightarrow> real option list \<Rightarrow> real option list" where
  "ewm_loop com minp st [] = []"
| "ewm_loop com minp st (cur # rest) =
     (let st' = ewm_step com st cur in ewm_out minp st' # ewm_loop com minp st' rest)"

definition ewm_var :: "real \<Rightarrow> nat \<Rightarrow> real option list \<Rightarrow> real option list" where
  "ewm_var spn min_periods xs =
     (case xs of
        [] \<Rightarrow> []
      | x0 # rest \<Rightarrow> None # ewm_loop (com_of_span spn) (max min_periods 1) (ewm_init x0) rest)"

definition zsqrt :: "real option \<Rightarrow> real option" where
  "zsqrt v = (case v of None \<Rightarrow> None | Some x \<Rightarrow> Some (if x < 0 then 0 else sqrt x))"

definition ewm_std :: "real \<Rightarrow> nat \<Rightarrow> real option list \<Rightarrow> real option list" where
  "ewm_std spn min_periods xs = map zsqrt (ewm_var spn min_periods xs)"

definition simple_ewvol_calc :: "series \<Rightarrow> series" where
  "simple_ewvol_calc daily_returns =
     (let days = 35; min_periods = 10
      in with_values daily_returns (ewm_std days min_periods (values_of daily_returns)))"

section \<open>MinimumClamp: \<open>apply_min_vol\<close>\<close>

text \<open>
  \<^verbatim>\<open>vol_abs_min = 0.0000000001; vol[vol < vol_abs_min] = vol_abs_min; return vol\<close>.
  The comparison \<open>vol < vol_abs_min\<close> is False on a NaN cell, so the mask never selects it.
\<close>

definition vol_abs_min :: real where
  "vol_abs_min = 1 / 10 ^ 10"

definition apply_min_vol :: "series \<Rightarrow> series" where
  "apply_min_vol vol =
     map (\<lambda>(d, v). (d, if nan_less v vol_abs_min then Some vol_abs_min else v)) vol"

section \<open>QuantileFloor: \<open>apply_vol_floor\<close>\<close>

text \<open>
  \<^verbatim>\<open>vol.rolling(min_periods=floor_min_periods, window=floor_days).quantile(quantile=floor_min_quant)\<close>.
  pandas slides a fixed window ending at each row: row \<open>i\<close> sees the rows from
  \<open>max 0 (i + 1 - window)\<close> to \<open>i\<close>. It keeps the non-NaN values of the window in a
  sorted skip list, inserting the row that enters and removing the row that leaves, and
  reads the quantile off the skip list by linear interpolation.
\<close>

definition win_start :: "nat \<Rightarrow> nat \<Rightarrow> nat" where
  "win_start window i = (i + 1) - window"

definition skiplist_add :: "real option \<Rightarrow> real list \<times> nat \<Rightarrow> real list \<times> nat" where
  "skiplist_add v s =
     (case v of None \<Rightarrow> s | Some x \<Rightarrow> (insort x (fst s), snd s + 1))"

definition skiplist_del :: "real option \<Rightarrow> real list \<times> nat \<Rightarrow> real list \<times> nat" where
  "skiplist_del v s =
     (case v of None \<Rightarrow> s | Some x \<Rightarrow> (remove1 x (fst s), snd s - 1))"

definition add_range :: "real option list \<Rightarrow> nat \<Rightarrow> nat \<Rightarrow> real list \<times> nat \<Rightarrow> real list \<times> nat" where
  "add_range vals a b s = fold (\<lambda>j. skiplist_add (vals ! j)) [a..<b] s"

definition del_range :: "real option list \<Rightarrow> nat \<Rightarrow> nat \<Rightarrow> real list \<times> nat \<Rightarrow> real list \<times> nat" where
  "del_range vals a b s = fold (\<lambda>j. skiplist_del (vals ! j)) [a..<b] s"

definition quantile_out :: "nat \<Rightarrow> real \<Rightarrow> real list \<times> nat \<Rightarrow> real option" where
  "quantile_out minp q s =
     (let skiplist = fst s; n = snd s
      in if minp \<le> n
         then (if n = 1 then Some (skiplist ! 0)
               else (let idx_with_fraction = q * real (n - 1);
                         idx = nat \<lfloor>idx_with_fraction\<rfloor>
                     in if idx_with_fraction = real idx then Some (skiplist ! idx)
                        else (let vlow = skiplist ! idx; vhigh = skiplist ! (idx + 1)
                              in Some (vlow + (vhigh - vlow) * (idx_with_fraction - real idx)))))
         else None)"

function roll_quantile_from ::
  "nat \<Rightarrow> nat \<Rightarrow> real \<Rightarrow> real option list \<Rightarrow> nat \<Rightarrow> real list \<times> nat \<Rightarrow> real option list" where
  "roll_quantile_from window minp q vals i s =
     (if length vals \<le> i then []
      else (let s' = (if i = 0 then add_range vals (win_start window i) (i + 1) ([], 0)
                      else del_range vals (win_start window (i - 1)) (win_start window i)
                             (add_range vals i (i + 1) s))
            in quantile_out minp q s' # roll_quantile_from window minp q vals (i + 1) s'))"
  by pat_completeness auto
termination
  by (relation "measure (\<lambda>(window, minp, q, vals, i, s). length vals - i)") auto

declare roll_quantile_from.simps [simp del]

definition rolling_quantile :: "nat \<Rightarrow> nat \<Rightarrow> real \<Rightarrow> real option list \<Rightarrow> py_error + real option list" where
  "rolling_quantile window min_periods q vals =
     (if window < min_periods then Inl (ValueError ''min_periods must be <= window'')
      else if q < 0 \<or> 1 < q then Inl (ValueError ''quantile value not in [0, 1]'')
      else Inr (roll_quantile_from window min_periods q vals 0 ([], 0)))"

text \<open>\<^verbatim>\<open>vol_min.iloc[0] = 0.0\<close>: position 0 of an empty column is out of bounds.\<close>

definition iloc0_set :: "real option list \<Rightarrow> real \<Rightarrow> py_error + real option list" where
  "iloc0_set col v = (if col = [] then Inl (IndexError ''iloc'') else Inr (col[0 := Some v]))"

text \<open>\<^verbatim>\<open>vol_min.ffill(inplace=True)\<close>: a NaN cell takes the last non-NaN cell above it.\<close>

fun ffill_from :: "real option \<Rightarrow> real option list \<Rightarrow> real option list" where
  "ffill_from prev [] = []"
| "ffill_from prev (v # vs) =
     (case v of None \<Rightarrow> prev # ffill_from prev vs | Some x \<Rightarrow> Some x # ffill_from (Some x) vs)"

definition ffill :: "real option list \<Rightarrow> real option list" where
  "ffill col = ffill_from None col"

text \<open>\<^verbatim>\<open>np.maximum\<close> is NaN where either operand is NaN.\<close>

definition np_maximum :: "real option \<Rightarrow> real option \<Rightarrow> real option" where
  "np_maximum a b =
     (case a of None \<Rightarrow> None | Some x \<Rightarrow> (case b of None \<Rightarrow> None | Some y \<Rightarrow> Some (max x y)))"

text \<open>
  The rolling quantile of line 78 (\<open>vol_min\<close> before it is changed), the reference that
  lines 84 and 85 make of it, and the function itself.
\<close>

definition vol_min_raw :: "series \<Rightarrow> real \<Rightarrow> nat \<Rightarrow> nat \<Rightarrow> py_error + real option list" where
  "vol_min_raw vol floor_min_quant floor_min_periods floor_days =
     rolling_quantile floor_days floor_min_periods floor_min_quant (values_of vol)"

definition vol_min_filled :: "series \<Rightarrow> real \<Rightarrow> nat \<Rightarrow> nat \<Rightarrow> py_error + real option list" where
  "vol_min_filled vol floor_min_quant floor_min_periods floor_days =
     (case vol_min_raw vol floor_min_quant floor_min_periods floor_days of
        Inl e \<Rightarrow> Inl e
      | Inr vol_min \<Rightarrow>
          (case iloc0_set vol_min 0 of
             Inl e \<Rightarrow> Inl e
           | Inr vol_min' \<Rightarrow> Inr (ffill vol_min')))"

definition apply_vol_floor :: "series \<Rightarrow> real \<Rightarrow> nat \<Rightarrow> nat \<Rightarrow> py_error + series" where
  "apply_vol_floor vol floor_min_quant floor_min_periods floor_days =
     (case vol_min_filled vol floor_min_quant floor_min_periods floor_days of
        Inl e \<Rightarrow> Inl e
      | Inr vol_min \<Rightarrow> Inr (with_values vol (map2 np_maximum (values_of vol) vol_min)))"

text \<open>The defaults of the signature, which the handler's call uses.\<close>

definition floor_min_quant_default :: real where
  "floor_min_quant_default = 5 / 100"

definition floor_min_periods_default :: nat where
  "floor_min_periods_default = 100"

definition floor_days_default :: nat where
  "floor_days_default = 500"

abbreviation vol_floor :: "series \<Rightarrow> py_error + series" where
  "vol_floor vol \<equiv>
     apply_vol_floor vol floor_min_quant_default floor_min_periods_default floor_days_default"

abbreviation vol_floor_reference_raw :: "series \<Rightarrow> py_error + real option list" where
  "vol_floor_reference_raw vol \<equiv>
     vol_min_raw vol floor_min_quant_default floor_min_periods_default floor_days_default"

abbreviation vol_floor_reference :: "series \<Rightarrow> py_error + real option list" where
  "vol_floor_reference vol \<equiv>
     vol_min_filled vol floor_min_quant_default floor_min_periods_default floor_days_default"

section \<open>The request: JSON values and \<open>int()\<close>\<close>

text \<open>
  The body of the request is whatever \<open>json.loads\<close> returns. An object is the list
  of its members; the special floats are the literals \<open>NaN\<close>, \<open>Infinity\<close> and
  \<open>-Infinity\<close>, which \<open>json.loads\<close> accepts.
\<close>

datatype json =
    JNull
  | JBool bool
  | JInt int
  | JFloat real
  | JNaN
  | JInfinity bool
  | JStr string
  | JArr "json list"
  | JObj "(string \<times> json) list"

text \<open>\<^verbatim>\<open>data[key]\<close> with a string key: only an object can be subscripted by it.\<close>

definition getitem :: "json \<Rightarrow> string \<Rightarrow> py_error + json" where
  "getitem data k =
     (case data of
        JObj members \<Rightarrow> (case map_of members k of None \<Rightarrow> Inl (KeyError k) | Some v \<Rightarrow> Inr v)
      | _ \<Rightarrow> Inl (TypeError ''subscript''))"

text \<open>
  \<open>int()\<close> of a string: surrounding whitespace is dropped, then an optional sign, then
  decimal digits, where single underscores may stand between digits.
\<close>

definition py_isspace :: "char \<Rightarrow> bool" where
  "py_isspace c = ((of_char c :: nat) \<in> {9, 10, 11, 12, 13, 28, 29, 30, 31, 32})"

definition is_digit :: "char \<Rightarrow> bool" where
  "is_digit c = (48 \<le> (of_char c :: nat) \<and> (of_char c :: nat) \<le> 57)"

definition digit_val :: "char \<Rightarrow> nat" where
  "digit_val c = of_char c - 48"

definition strip :: "string \<Rightarrow> string" where
  "strip s = rev (dropWhile py_isspace (rev (dropWhile py_isspace s)))"

fun parse_digits :: "nat \<Rightarrow> string \<Rightarrow> nat option" where
  "parse_digits acc [] = Some acc"
| "parse_digits acc (c # cs) =
     (if is_digit c then parse_digits (10 * acc + digit_val c) cs
      else if c = CHR ''_''
      then (case cs of
              [] \<Rightarrow> None
            | d # ds \<Rightarrow> if is_digit d then parse_digits (10 * acc + digit_val d) ds else None)
      else None)"

definition parse_decimal :: "string \<Rightarrow> nat option" where
  "parse_decimal s =
     (case s of [] \<Rightarrow> None | c # cs \<Rightarrow> if is_digit c then parse_digits (digit_val c) cs else None)"

definition int_of_str :: "string \<Rightarrow> py_error + int" where
  "int_of_str s =
     (let t = strip s;
          r = (case t of
                 [] \<Rightarrow> None
               | c # cs \<Rightarrow>
                   if c = CHR ''-'' then map_option (\<lambda>n. - int n) (parse_decimal cs)
                   else if c = CHR ''+'' then map_option int (parse_decimal cs)
                   else map_option int (parse_decimal t))
      in case r of None \<Rightarrow> Inl (ValueError ''invalid literal for int() with base 10'') | Some n \<Rightarrow> Inr n)"

definition py_int :: "json \<Rightarrow> py_error + int" where
  "py_int v =
     (case v of
        JInt n \<Rightarrow> Inr n
      | JBool b \<Rightarrow> Inr (if b then 1 else 0)
      | JFloat r \<Rightarrow> Inr (if 0 \<le> r then \<lfloor>r\<rfloor> else \<lceil>r\<rceil>)
      | JNaN \<Rightarrow> Inl (ValueError ''cannot convert float NaN to integer'')
      | JInfinity _ \<Rightarrow> Inl (OverflowError ''cannot convert float infinity to integer'')
      | JStr s \<Rightarrow> int_of_str s
      | _ \<Rightarrow> Inl (TypeError ''int() argument''))"

section \<open>The store query: \<open>retrieve_prices_from_dynamodb\<close>\<close>

text \<open>
  The table is outside the program. It is a parameter: what the \<open>n\<close>-th call of
  \<open>table.query\<close> answers to the query it is given, an exception or a response. A
  response may lack \<open>Items\<close>, and it carries \<open>LastEvaluatedKey\<close> when there are more
  pages. The effects of the program are the records it logs and the queries it issues.
\<close>

record ddb_query =
  q_instrument :: json
  q_start_time :: int
  q_end_time :: int
  q_exclusive_start_key :: "json option"

record ddb_response =
  resp_Items :: "raw_price list option"
  resp_LastEvaluatedKey :: "json option"

type_synonym table = "nat \<Rightarrow> ddb_query \<Rightarrow> py_error + ddb_response"

record world =
  logged :: "(string \<times> py_error) list"
  issued :: "ddb_query list"

definition retrieval_error_message :: string where
  "retrieval_error_message = ''Error occurred while retrieving prices from DynamoDB''"

text \<open>
  One call of \<open>table.query\<close> followed by \<open>items += response['Items']\<close>: the query is
  recorded, and the outcome is the exception raised or the response with the items so far.
\<close>

definition query_page ::
  "table \<Rightarrow> ddb_query \<Rightarrow> raw_price list \<Rightarrow> ddb_query list
     \<Rightarrow> (py_error + ddb_response \<times> raw_price list) \<times> ddb_query list" where
  "query_page tbl q items trace =
     (case tbl (length trace) q of
        Inl e \<Rightarrow> (Inl e, trace @ [q])
      | Inr response \<Rightarrow>
          (case resp_Items response of
             None \<Rightarrow> (Inl (KeyError ''Items''), trace @ [q])
           | Some page \<Rightarrow> (Inr (response, items @ page), trace @ [q])))"

text \<open>
  \<^verbatim>\<open>while 'LastEvaluatedKey' in response: ...\<close> need not end: a table may answer
  every query with a further key. The loop is a partial function; \<open>None\<close> is a run that
  does not return.
\<close>

partial_function (option) pagination ::
  "table \<Rightarrow> ddb_query \<Rightarrow> ddb_response \<Rightarrow> raw_price list \<Rightarrow> ddb_query list
     \<Rightarrow> ((py_error + raw_price list) \<times> ddb_query list) option" where
  "pagination tbl q0 response items trace =
     (case resp_LastEvaluatedKey response of
        None \<Rightarrow> Some (Inr items, trace)
      | Some k \<Rightarrow>
          (case query_page tbl (q0\<lparr>q_exclusive_start_key := Some k\<rparr>) items trace of
             (Inl e, trace') \<Rightarrow> Some (Inl e, trace')
           | (Inr (response', items'), trace') \<Rightarrow> pagination tbl q0 response' items' trace'))"

definition try_block ::
  "table \<Rightarrow> ddb_query \<Rightarrow> ddb_query list \<Rightarrow> ((py_error + raw_price list) \<times> ddb_query list) option" where
  "try_block tbl q0 trace =
     (case query_page tbl q0 [] trace of
        (Inl e, trace') \<Rightarrow> Some (Inl e, trace')
      | (Inr (response, items), trace') \<Rightarrow> pagination tbl q0 response items trace')"

definition retrieve_prices_from_dynamodb ::
  "table \<Rightarrow> int \<Rightarrow> json \<Rightarrow> int \<Rightarrow> world \<Rightarrow> ((py_error + raw_price list) \<times> world) option" where
  "retrieve_prices_from_dynamodb tbl now instrument start_time w =
     (let end_time = now;
          q0 = \<lparr>q_instrument = instrument, q_start_time = start_time, q_end_time = end_time,
                q_exclusive_start_key = None\<rparr>
      in case try_block tbl q0 (issued w) of
           None \<Rightarrow> None
         | Some (Inr items, trace) \<Rightarrow> Some (Inr items, w\<lparr>issued := trace\<rparr>)
         | Some (Inl e, trace) \<Rightarrow>
             Some (Inl (ValueError retrieval_error_message),
                   w\<lparr>logged := logged w @ [(retrieval_error_message, e)], issued := trace\<rparr>))"

section \<open>RequestHandler: \<open>robust_volatility_calculation\<close>\<close>

record response =
  resp_rule :: string
  resp_instrument :: json

definition robust_volatility_calculation ::
  "table \<Rightarrow> int \<Rightarrow> json \<Rightarrow> world \<Rightarrow> ((py_error + response) \<times> world) option" where
  "robust_volatility_calculation tbl now data w =
     (case getitem data ''instrument'' of
        Inl e \<Rightarrow> Some (Inl e, w)
      | Inr instrument \<Rightarrow>
          (case getitem data ''start_time'' of
             Inl e \<Rightarrow> Some (Inl e, w)
           | Inr st \<Rightarrow>
               (case py_int st of
                  Inl e \<Rightarrow> Some (Inl e, w)
                | Inr start_time \<Rightarrow>
                    (case retrieve_prices_from_dynamodb tbl now instrument start_time w of
                       None \<Rightarrow> None
                     | Some (Inl e, w') \<Rightarrow> Some (Inl e, w')
                     | Some (Inr raw_prices, w') \<Rightarrow>
                         (case aggregate_to_day_based_prices raw_prices of
                            Inl e \<Rightarrow> Some (Inl e, w')
                          | Inr prices \<Rightarrow>
                              (let volatility = simple_ewvol_calc prices;
                                   cutted_vol = apply_min_vol volatility
                               in case vol_floor cutted_vol of
                                    Inl e \<Rightarrow> Some (Inl e, w')
                                  | Inr floored_volatility \<Rightarrow>
                                      Some (Inr \<lparr>resp_rule = ''Robust Volatility Series'',
                                                 resp_instrument = instrument\<rparr>, w')))))))"

section \<open>The floor reference as the specification words it\<close>

text \<open>
  The specification describes the raw reference of a day without the skip list: take
  the trailing window of the given width (shorter at the start of the series), keep its
  non-missing values, and, when there are at least \<open>min_periods\<close> of them, take their
  quantile by linear interpolation between the two neighbouring order statistics.
\<close>

definition trailing_window :: "nat \<Rightarrow> 'a list \<Rightarrow> nat \<Rightarrow> 'a list" where
  "trailing_window width xs i = drop ((i + 1) - width) (take (i + 1) xs)"

definition non_missing :: "real option list \<Rightarrow> real list" where
  "non_missing w = map the (filter (\<lambda>v. v \<noteq> None) w)"

definition percentile_linear :: "real \<Rightarrow> real list \<Rightarrow> real" where
  "percentile_linear q xs =
     (let ordered = sort xs;
          h = q * real (length xs - 1);
          lo = nat \<lfloor>h\<rfloor>;
          hi = nat \<lceil>h\<rceil>
      in ordered ! lo + (h - real lo) * (ordered ! hi - ordered ! lo))"

definition reference_rule :: "real \<Rightarrow> nat \<Rightarrow> nat \<Rightarrow> real option list \<Rightarrow> nat \<Rightarrow> real option" where
  "reference_rule q min_periods width xs i =
     (let w = non_missing (trailing_window width xs i)
      in if min_periods \<le> length w then Some (percentile_linear q w) else None)"

text \<open>The skip list and the count that the rolling pass holds after row \<open>k\<close>.\<close>

definition win_state :: "nat \<Rightarrow> real option list \<Rightarrow> nat \<Rightarrow> real list \<times> nat" where
  "win_state width xs k =
     (sort (non_missing (trailing_window width xs k)),
      length (non_missing (trailing_window width xs k)))"

section \<open>Warm-up of the volatility estimate\<close>



section \<open>Failing queries and decimal strings\<close>






section \<open>Properties of MinimumClamp\<close>

lemma length_apply_min_vol: "length (apply_min_vol vol) = length vol"
  by (simp add: apply_min_vol_def)

lemma index_of_apply_min_vol: "index_of (apply_min_vol vol) = index_of vol"
  by (simp add: apply_min_vol_def index_of_def case_prod_beta)

lemma values_of_apply_min_vol:
  "values_of (apply_min_vol vol) =
     map (\<lambda>v. if nan_less v vol_abs_min then Some vol_abs_min else v) (values_of vol)"
  by (simp add: apply_min_vol_def values_of_def case_prod_beta)

text \<open>
  C3. MinimumClamp keeps the index and the length of the series; at every row a value
  strictly below \<open>1e-10\<close> becomes exactly \<open>1e-10\<close>, a value at or above \<open>1e-10\<close>
  is unchanged, a NaN cell stays NaN, and no cell of the output is below \<open>1e-10\<close>.
\<close>

theorem apply_min_vol_clamps:
  "vol_abs_min = 1 / 10 ^ 10 \<and>
   index_of (apply_min_vol vol) = index_of vol \<and>
   length (apply_min_vol vol) = length vol \<and>
   (\<forall>i < length vol.
      (\<forall>x. values_of vol ! i = Some x \<and> x < 1 / 10 ^ 10
           \<longrightarrow> values_of (apply_min_vol vol) ! i = Some (1 / 10 ^ 10)) \<and>
      (\<forall>x. values_of vol ! i = Some x \<and> 1 / 10 ^ 10 \<le> x
           \<longrightarrow> values_of (apply_min_vol vol) ! i = Some x) \<and>
      (values_of vol ! i = None \<longrightarrow> values_of (apply_min_vol vol) ! i = None) \<and>
      \<not> nan_less (values_of (apply_min_vol vol) ! i) (1 / 10 ^ 10))"
proof -
  have "\<forall>i < length vol.
      (\<forall>x. values_of vol ! i = Some x \<and> x < vol_abs_min
           \<longrightarrow> values_of (apply_min_vol vol) ! i = Some vol_abs_min) \<and>
      (\<forall>x. values_of vol ! i = Some x \<and> vol_abs_min \<le> x
           \<longrightarrow> values_of (apply_min_vol vol) ! i = Some x) \<and>
      (values_of vol ! i = None \<longrightarrow> values_of (apply_min_vol vol) ! i = None) \<and>
      \<not> nan_less (values_of (apply_min_vol vol) ! i) vol_abs_min"
  proof (intro allI impI)
    fix i assume "i < length vol"
    then have i: "i < length (values_of vol)" by (simp add: values_of_def)
    show "(\<forall>x. values_of vol ! i = Some x \<and> x < vol_abs_min
           \<longrightarrow> values_of (apply_min_vol vol) ! i = Some vol_abs_min) \<and>
      (\<forall>x. values_of vol ! i = Some x \<and> vol_abs_min \<le> x
           \<longrightarrow> values_of (apply_min_vol vol) ! i = Some x) \<and>
      (values_of vol ! i = None \<longrightarrow> values_of (apply_min_vol vol) ! i = None) \<and>
      \<not> nan_less (values_of (apply_min_vol vol) ! i) vol_abs_min"
      using i by (auto simp: values_of_apply_min_vol nan_less_def split: option.splits)
  qed
  then show ?thesis
    by (simp add: index_of_apply_min_vol length_apply_min_vol vol_abs_min_def)
qed

theorem apply_min_vol_clamps_witness:
  "values_of (apply_min_vol [(0, Some 0), (1, None), (2, Some 1), (3, Some (- 5))])
     = [Some (1 / 10 ^ 10), None, Some 1, Some (1 / 10 ^ 10)]"
proof -
  let ?vol = "[(0, Some 0), (1, None), (2, Some 1), (3, Some (- 5))] :: series"
  note c = apply_min_vol_clamps [of ?vol]
  have len: "length (values_of (apply_min_vol ?vol)) = 4"
    using c by (simp add: values_of_def)
  have v: "values_of ?vol = [Some 0, None, Some 1, Some (- 5)]"
    by (simp add: values_of_def)
  from c have c': "\<forall>i < length ?vol.
      (\<forall>x. values_of ?vol ! i = Some x \<and> x < 1 / 10 ^ 10
           \<longrightarrow> values_of (apply_min_vol ?vol) ! i = Some (1 / 10 ^ 10)) \<and>
      (\<forall>x. values_of ?vol ! i = Some x \<and> 1 / 10 ^ 10 \<le> x
           \<longrightarrow> values_of (apply_min_vol ?vol) ! i = Some x) \<and>
      (values_of ?vol ! i = None \<longrightarrow> values_of (apply_min_vol ?vol) ! i = None) \<and>
      \<not> nan_less (values_of (apply_min_vol ?vol) ! i) (1 / 10 ^ 10)" by blast
  have 0: "values_of (apply_min_vol ?vol) ! 0 = Some (1 / 10 ^ 10)"
    using c'[rule_format, of 0] by (simp add: v)
  have 1: "values_of (apply_min_vol ?vol) ! 1 = None"
    using c'[rule_format, of 1] by (simp add: v)
  have 2: "values_of (apply_min_vol ?vol) ! 2 = Some 1"
    using c'[rule_format, of 2] by (simp add: v)
  have 3: "values_of (apply_min_vol ?vol) ! 3 = Some (1 / 10 ^ 10)"
    using c'[rule_format, of 3] by (simp add: v)
  show ?thesis
  proof (rule nth_equalityI)
    show "length (values_of (apply_min_vol ?vol))
            = length [Some (1 / 10 ^ 10), None, Some 1, Some (1 / 10 ^ 10 :: real)]"
      using len by simp
  next
    fix i assume "i < length (values_of (apply_min_vol ?vol))"
    then have "i = 0 \<or> i = 1 \<or> i = 2 \<or> i = 3" using len by auto
    then show "values_of (apply_min_vol ?vol) ! i
                 = [Some (1 / 10 ^ 10), None, Some 1, Some (1 / 10 ^ 10 :: real)] ! i"
      using 0 1 2 3 by auto
  qed
qed

section \<open>Properties of QuantileFloor\<close>

lemma index_of_with_values:
  "length vs = length s \<Longrightarrow> index_of (with_values s vs) = index_of s"
  by (simp add: with_values_def index_of_def)

lemma values_of_with_values:
  "length vs = length s \<Longrightarrow> values_of (with_values s vs) = vs"
  by (simp add: with_values_def index_of_def values_of_def)

lemma length_with_values:
  "length vs = length s \<Longrightarrow> length (with_values s vs) = length s"
  by (simp add: with_values_def index_of_def)

lemma length_values_of: "length (values_of s) = length s"
  by (simp add: values_of_def)

lemma length_roll_quantile_from:
  "length (roll_quantile_from window minp q vals i s) = length vals - i"
proof (induction window minp q vals i s rule: roll_quantile_from.induct)
  case (1 window minp q vals i s)
  show ?case
  proof (cases "length vals \<le> i")
    case True
    then show ?thesis by (subst roll_quantile_from.simps) simp
  next
    case False
    then show ?thesis
      using "1.IH" [OF False refl]
      by (subst roll_quantile_from.simps) (simp add: Let_def)
  qed
qed

lemma rolling_quantile_default:
  "rolling_quantile floor_days_default floor_min_periods_default floor_min_quant_default vals
     = Inr (roll_quantile_from floor_days_default floor_min_periods_default
              floor_min_quant_default vals 0 ([], 0))"
  by (simp add: rolling_quantile_def floor_days_default_def floor_min_periods_default_def
      floor_min_quant_default_def)

lemma length_ffill_from: "length (ffill_from prev col) = length col"
  by (induction col arbitrary: prev) (auto split: option.splits)

lemma ffill_from_Some_nth:
  "i < length col \<Longrightarrow> ffill_from (Some p) col ! i \<noteq> None"
proof (induction col arbitrary: p i)
  case Nil
  then show ?case by simp
next
  case (Cons v vs)
  then show ?case by (cases i; cases v) auto
qed

lemma ffill_iloc0:
  "col \<noteq> [] \<Longrightarrow> ffill (col[0 := Some v]) = Some v # ffill_from (Some v) (tl col)"
  by (cases col) (simp_all add: ffill_def)

lemma vol_min_filled_nonempty:
  assumes "vol \<noteq> []"
  shows "vol_floor_reference vol =
           Inr (Some 0 # ffill_from (Some 0)
                  (tl (roll_quantile_from floor_days_default floor_min_periods_default
                         floor_min_quant_default (values_of vol) 0 ([], 0))))"
proof -
  let ?raw = "roll_quantile_from floor_days_default floor_min_periods_default
                floor_min_quant_default (values_of vol) 0 ([], 0)"
  have "length ?raw = length vol"
    by (simp add: length_roll_quantile_from length_values_of)
  with assms have ne: "?raw \<noteq> []" by auto
  show ?thesis
    using ne
    by (simp add: vol_min_filled_def vol_min_raw_def rolling_quantile_default iloc0_set_def
        ffill_iloc0)
qed

lemma vol_floor_reference_props:
  assumes "vol \<noteq> []"
  shows "\<exists>ref. vol_floor_reference vol = Inr ref \<and> length ref = length vol
    \<and> ref ! 0 = Some 0 \<and> (\<forall>i < length vol. ref ! i \<noteq> None)"
proof -
  let ?raw = "roll_quantile_from floor_days_default floor_min_periods_default
                floor_min_quant_default (values_of vol) 0 ([], 0)"
  let ?ref = "Some 0 # ffill_from (Some 0) (tl ?raw)"
  have len_raw: "length ?raw = length vol"
    by (simp add: length_roll_quantile_from length_values_of)
  have 1: "vol_floor_reference vol = Inr ?ref"
    by (rule vol_min_filled_nonempty [OF assms])
  have 2: "length ?ref = length vol"
    using assms len_raw by (cases vol) (simp_all add: length_ffill_from)
  have 3: "?ref ! 0 = Some 0" by simp
  have 4: "?ref ! i \<noteq> None" if "i < length vol" for i
  proof (cases i)
    case 0
    then show ?thesis by simp
  next
    case (Suc j)
    with that len_raw have "j < length (tl ?raw)" by simp
    then show ?thesis using Suc by (simp add: ffill_from_Some_nth)
  qed
  from 1 2 3 4 show ?thesis by blast
qed

lemma vol_floor_eq:
  assumes "vol_floor_reference vol = Inr ref" "length ref = length vol"
  shows "vol_floor vol = Inr (with_values vol (map2 np_maximum (values_of vol) ref))"
    and "length (map2 np_maximum (values_of vol) ref) = length vol"
    and "i < length vol \<Longrightarrow>
           map2 np_maximum (values_of vol) ref ! i = np_maximum (values_of vol ! i) (ref ! i)"
  using assms by (simp_all add: apply_vol_floor_def length_values_of)

lemma np_maximum_None: "np_maximum None b = None"
  by (simp add: np_maximum_def)

lemma np_maximum_ge:
  "b \<noteq> None \<Longrightarrow> nan_ge (np_maximum (Some x) b) (Some x) \<and> nan_ge (np_maximum (Some x) b) b"
  by (cases b) (simp_all add: np_maximum_def nan_ge_def)

text \<open>
  C8. At every row where the clamped volatility is NaN the floored output is NaN too,
  although the forward-filled reference has a value there: \<open>np.maximum\<close> propagates
  NaN, so the floor never fills the warm-up rows.
\<close>

theorem vol_floor_keeps_nan:
  assumes "i < length vol" and "values_of vol ! i = None"
  shows "\<exists>out ref. vol_floor vol = Inr out \<and> vol_floor_reference vol = Inr ref
           \<and> length out = length vol \<and> index_of out = index_of vol
           \<and> ref ! i \<noteq> None \<and> values_of out ! i = None"
proof -
  from assms(1) have ne: "vol \<noteq> []" by auto
  from ne obtain ref where ref: "vol_floor_reference vol = Inr ref" "length ref = length vol"
    and ref0: "ref ! 0 = Some 0"
    and some: "\<And>j. j < length vol \<Longrightarrow> ref ! j \<noteq> None"
    using vol_floor_reference_props by blast
  let ?m = "map2 np_maximum (values_of vol) ref"
  let ?out = "with_values vol ?m"
  have out: "vol_floor vol = Inr ?out" and len: "length ?m = length vol"
    and nth: "?m ! i = np_maximum (values_of vol ! i) (ref ! i)"
    using vol_floor_eq [OF ref] assms(1) by blast+
  have "values_of ?out ! i = None"
    using nth assms(2) by (simp add: values_of_with_values [OF len] np_maximum_None)
  moreover have "length ?out = length vol" "index_of ?out = index_of vol"
    by (simp_all add: length_with_values [OF len] index_of_with_values [OF len])
  ultimately show ?thesis using out ref some [OF assms(1)] by blast
qed

theorem vol_floor_keeps_nan_witness:
  "(1::nat) < length [(0::int, Some (1::real)), (1, None)]
   \<and> values_of [(0, Some 1), (1, None)] ! 1 = None
   \<and> projr (vol_floor_reference [(0, Some 1), (1, None)]) ! 1 \<noteq> None
   \<and> values_of (projr (vol_floor [(0, Some 1), (1, None)])) ! 1 = None"
  using vol_floor_keeps_nan [of 1 "[(0, Some 1), (1, None)]"]
  by (auto simp: values_of_def)

text \<open>
  C1, as stated, fails at a row whose clamped volatility is NaN: the output there is NaN,
  and NaN is not greater than or equal to the reference \<open>0.0\<close>.
\<close>

theorem vol_floor_nan_counterexample:
  "vol_floor [(0, None)] = Inr [(0, None)]
   \<and> vol_floor_reference [(0, None)] = Inr [Some 0]
   \<and> \<not> nan_ge (values_of (projr (vol_floor [(0, None)])) ! 0)
            (projr (vol_floor_reference [(0, None)]) ! 0)"
  by code_simp

text \<open>
  C1, amended. For every non-empty clamped series the reference is \<open>0.0\<close> at row 0 and
  has no NaN after the forward fill, and at every row where the clamped volatility has a
  value the output is greater than or equal to both that value and the reference.
\<close>

theorem vol_floor_bounds:
  assumes "vol \<noteq> []"
  shows "\<exists>out ref. vol_floor vol = Inr out \<and> vol_floor_reference vol = Inr ref
           \<and> length ref = length vol \<and> ref ! 0 = Some 0
           \<and> (\<forall>i < length vol. ref ! i \<noteq> None)
           \<and> length out = length vol \<and> index_of out = index_of vol
           \<and> (\<forall>i < length vol. values_of vol ! i \<noteq> None \<longrightarrow>
                  nan_ge (values_of out ! i) (values_of vol ! i)
                  \<and> nan_ge (values_of out ! i) (ref ! i))"
proof -
  from assms obtain ref where ref: "vol_floor_reference vol = Inr ref" "length ref = length vol"
    and ref0: "ref ! 0 = Some 0"
    and some: "\<And>j. j < length vol \<Longrightarrow> ref ! j \<noteq> None"
    using vol_floor_reference_props by blast
  let ?m = "map2 np_maximum (values_of vol) ref"
  let ?out = "with_values vol ?m"
  have out: "vol_floor vol = Inr ?out" and len: "length ?m = length vol"
    using vol_floor_eq [OF ref] by blast+
  have vals: "values_of ?out = ?m" by (rule values_of_with_values [OF len])
  have ge: "nan_ge (values_of ?out ! i) (values_of vol ! i) \<and> nan_ge (values_of ?out ! i) (ref ! i)"
    if "i < length vol" "values_of vol ! i \<noteq> None" for i
  proof -
    from that(2) obtain x where x: "values_of vol ! i = Some x" by auto
    have "?m ! i = np_maximum (Some x) (ref ! i)"
      using vol_floor_eq(3) [OF ref that(1)] x by simp
    then show ?thesis
      using np_maximum_ge [OF some [OF that(1)], of x] x vals by simp
  qed
  have "length ?out = length vol" "index_of ?out = index_of vol"
    by (simp_all add: length_with_values [OF len] index_of_with_values [OF len])
  then show ?thesis using out ref ref0 some ge by blast
qed

theorem vol_floor_bounds_witness:
  "[(0::int, Some (1::real)), (1, None)] \<noteq> []
   \<and> projr (vol_floor_reference [(0, Some 1), (1, None)]) ! 0 = Some 0
   \<and> nan_ge (values_of (projr (vol_floor [(0, Some 1), (1, None)])) ! 0) (Some 1)
   \<and> nan_ge (values_of (projr (vol_floor [(0, Some 1), (1, None)])) ! 0)
        (projr (vol_floor_reference [(0, Some 1), (1, None)]) ! 0)"
  using vol_floor_bounds [of "[(0, Some 1), (1, None)]"]
  by (auto simp: values_of_def)

section \<open>The rolling quantile against the specification's rule\<close>

lemma non_missing_append: "non_missing (xs @ ys) = non_missing xs @ non_missing ys"
  by (simp add: non_missing_def)

lemma non_missing_Cons:
  "non_missing (v # xs) = (case v of None \<Rightarrow> non_missing xs | Some x \<Rightarrow> x # non_missing xs)"
  by (simp add: non_missing_def split: option.splits)

lemma skiplist_add_state:
  assumes "sorted (fst s)" "snd s = length (fst s)"
  shows "sorted (fst (skiplist_add v s))"
    and "snd (skiplist_add v s) = length (fst (skiplist_add v s))"
    and "mset (fst (skiplist_add v s)) = mset (fst s) + mset (non_missing [v])"
  using assms by (auto simp: skiplist_add_def non_missing_def sorted_insort split: option.splits)

lemma skiplist_del_state:
  assumes "sorted (fst s)" "snd s = length (fst s)" "mset (non_missing [v]) \<subseteq># mset (fst s)"
  shows "sorted (fst (skiplist_del v s))"
    and "snd (skiplist_del v s) = length (fst (skiplist_del v s))"
    and "mset (fst (skiplist_del v s)) = mset (fst s) - mset (non_missing [v])"
  using assms
  by (auto simp: skiplist_del_def non_missing_def sorted_remove1 length_remove1
      split: option.splits)

lemma win_state_eqI:
  assumes "sorted (fst s)" "snd s = length (fst s)"
    "mset (fst s) = mset (non_missing (trailing_window width xs k))"
  shows "s = win_state width xs k"
proof -
  have "sort (non_missing (trailing_window width xs k)) = fst s"
    using assms(1,3) by (simp add: properties_for_sort)
  moreover have "length (non_missing (trailing_window width xs k)) = snd s"
    using assms(2,3) by (metis size_mset)
  ultimately show ?thesis by (simp add: win_state_def prod_eq_iff)
qed

lemma win_state_props:
  "sorted (fst (win_state width xs k))"
  "snd (win_state width xs k) = length (fst (win_state width xs k))"
  "mset (fst (win_state width xs k)) = mset (non_missing (trailing_window width xs k))"
  by (simp_all add: win_state_def)

lemma trailing_window_0:
  "xs \<noteq> [] \<Longrightarrow> trailing_window width xs 0 = (if width = 0 then [] else [xs ! 0])"
  by (cases xs) (simp_all add: trailing_window_def)

lemma trailing_window_Suc_short:
  assumes "Suc i < length xs" "Suc i < width"
  shows "trailing_window width xs (Suc i) = trailing_window width xs i @ [xs ! Suc i]"
  using assms by (simp add: trailing_window_def take_Suc_conv_app_nth)

lemma trailing_window_Suc_full:
  assumes "Suc i < length xs" "width \<le> Suc i" "0 < width"
  shows "xs ! (Suc i - width) # trailing_window width xs (Suc i)
           = trailing_window width xs i @ [xs ! Suc i]"
proof -
  let ?t = "take (Suc i) xs"
  have len: "length ?t = Suc i" using assms(1) by simp
  have a: "Suc i - width < length ?t" using assms by simp
  have "trailing_window width xs i = drop (Suc i - width) ?t"
    by (simp add: trailing_window_def)
  also have "\<dots> = ?t ! (Suc i - width) # drop (Suc (Suc i - width)) ?t"
    by (rule Cons_nth_drop_Suc [OF a, symmetric])
  also have "?t ! (Suc i - width) = xs ! (Suc i - width)"
    using assms by simp
  finally have w: "trailing_window width xs i
      = xs ! (Suc i - width) # drop (Suc (Suc i - width)) ?t" .
  have "trailing_window width xs (Suc i)
      = drop (Suc (Suc i) - width) (?t @ [xs ! Suc i])"
    using assms(1) by (simp add: trailing_window_def take_Suc_conv_app_nth)
  also have "Suc (Suc i) - width = Suc (Suc i - width)" using assms by simp
  also have "drop (Suc (Suc i - width)) (?t @ [xs ! Suc i])
      = drop (Suc (Suc i - width)) ?t @ [xs ! Suc i]"
    using assms len by simp
  finally show ?thesis using w by simp
qed

lemma trailing_window_width_0: "trailing_window 0 xs i = []"
  by (simp add: trailing_window_def)

lemma mset_non_missing_window_Suc:
  assumes "Suc i < length xs"
  shows "mset (non_missing (trailing_window width xs (Suc i)))
           + (if width \<le> Suc i then mset (non_missing [xs ! (Suc i - width)]) else {#})
         = mset (non_missing (trailing_window width xs i)) + mset (non_missing [xs ! Suc i])"
proof (cases "width = 0")
  case True
  then show ?thesis by (simp add: trailing_window_width_0)
next
  case False
  show ?thesis
  proof (cases "width \<le> Suc i")
    case True
    have "non_missing (xs ! (Suc i - width) # trailing_window width xs (Suc i))
            = non_missing (trailing_window width xs i @ [xs ! Suc i])"
      using trailing_window_Suc_full [OF assms True] False by simp
    then have "non_missing [xs ! (Suc i - width)] @ non_missing (trailing_window width xs (Suc i))
            = non_missing (trailing_window width xs i) @ non_missing [xs ! Suc i]"
      by (metis append_Cons append_Nil non_missing_append)
    then have "mset (non_missing [xs ! (Suc i - width)] @ non_missing (trailing_window width xs (Suc i)))
            = mset (non_missing (trailing_window width xs i) @ non_missing [xs ! Suc i])"
      by simp
    then show ?thesis using True by (simp add: add.commute)
  next
    case False
    then have "trailing_window width xs (Suc i) = trailing_window width xs i @ [xs ! Suc i]"
      using trailing_window_Suc_short [OF assms] by simp
    then show ?thesis using False by (simp add: non_missing_append)
  qed
qed

lemma roll_step_first:
  assumes "0 < length vals"
  shows "add_range vals (win_start window 0) (0 + 1) ([], 0) = win_state window vals 0"
proof (cases "window = 0")
  case True
  then show ?thesis
    by (simp add: add_range_def win_start_def win_state_def trailing_window_width_0 non_missing_def)
next
  case False
  then have "add_range vals (win_start window 0) (0 + 1) ([], 0) = skiplist_add (vals ! 0) ([], 0)"
    by (simp add: add_range_def win_start_def)
  moreover have "win_state window vals 0 = skiplist_add (vals ! 0) ([], 0)"
    using assms False
    by (simp add: win_state_def trailing_window_0 non_missing_def skiplist_add_def
        split: option.splits)
  ultimately show ?thesis by simp
qed

lemma roll_step_next:
  assumes "Suc i < length vals"
  shows "del_range vals (win_start window (Suc i - 1)) (win_start window (Suc i))
           (add_range vals (Suc i) (Suc i + 1) (win_state window vals i))
         = win_state window vals (Suc i)"
proof -
  let ?s0 = "win_state window vals i"
  let ?s1 = "skiplist_add (vals ! Suc i) ?s0"
  have add: "add_range vals (Suc i) (Suc i + 1) ?s0 = ?s1"
    by (simp add: add_range_def)
  have s1: "sorted (fst ?s1)" "snd ?s1 = length (fst ?s1)"
    "mset (fst ?s1) = mset (non_missing (trailing_window window vals i))
                        + mset (non_missing [vals ! Suc i])"
    using skiplist_add_state [where s = ?s0 and v = "vals ! Suc i", OF win_state_props(1,2)]
    by (simp_all add: win_state_props(3))
  note key = mset_non_missing_window_Suc [OF assms, of window]
  show ?thesis
  proof (cases "window \<le> Suc i")
    case True
    let ?v = "vals ! (Suc i - window)"
    have rng: "[win_start window i..<win_start window (Suc i)] = [Suc i - window]"
    proof -
      have "win_start window i = Suc i - window"
        by (simp add: win_start_def)
      moreover have "win_start window (Suc i) = Suc (Suc i - window)"
        using True by (simp add: win_start_def)
      ultimately show ?thesis by simp
    qed
    have del: "del_range vals (win_start window (Suc i - 1)) (win_start window (Suc i)) ?s1
                 = skiplist_del ?v ?s1"
      using rng by (simp add: del_range_def)
    have m: "mset (fst ?s1) = mset (non_missing (trailing_window window vals (Suc i)))
                               + mset (non_missing [?v])"
      using key True s1(3) by simp
    then have sub: "mset (non_missing [?v]) \<subseteq># mset (fst ?s1)" by simp
    have "skiplist_del ?v ?s1 = win_state window vals (Suc i)"
    proof (rule win_state_eqI)
      show "sorted (fst (skiplist_del ?v ?s1))"
        by (rule skiplist_del_state(1) [OF s1(1,2) sub])
      show "snd (skiplist_del ?v ?s1) = length (fst (skiplist_del ?v ?s1))"
        by (rule skiplist_del_state(2) [OF s1(1,2) sub])
      show "mset (fst (skiplist_del ?v ?s1))
              = mset (non_missing (trailing_window window vals (Suc i)))"
        using skiplist_del_state(3) [OF s1(1,2) sub] m by simp
    qed
    then show ?thesis using add del by simp
  next
    case False
    then have "win_start window (Suc i - 1) = 0" "win_start window (Suc i) = 0"
      by (simp_all add: win_start_def)
    then have del: "del_range vals (win_start window (Suc i - 1)) (win_start window (Suc i)) ?s1 = ?s1"
      by (simp add: del_range_def)
    have "?s1 = win_state window vals (Suc i)"
    proof (rule win_state_eqI)
      show "mset (fst ?s1) = mset (non_missing (trailing_window window vals (Suc i)))"
        using key False s1(3) by simp
    qed (rule s1)+
    then show ?thesis using add del by simp
  qed
qed

lemma roll_quantile_from_nth:
  assumes "i + j < length vals" and "0 < i \<Longrightarrow> s = win_state window vals (i - 1)"
  shows "roll_quantile_from window minp q vals i s ! j
           = quantile_out minp q (win_state window vals (i + j))"
  using assms
proof (induction j arbitrary: i s)
  case 0
  then have i: "i < length vals" by simp
  have step: "(if i = 0 then add_range vals (win_start window i) (i + 1) ([], 0)
               else del_range vals (win_start window (i - 1)) (win_start window i)
                      (add_range vals i (i + 1) s)) = win_state window vals i"
  proof (cases i)
    case 0
    then show ?thesis using i roll_step_first [of vals window] by simp
  next
    case (Suc k)
    then show ?thesis using i "0.prems"(2) roll_step_next [of k vals window] by simp
  qed
  show ?case
    using i step by (subst roll_quantile_from.simps) (simp add: Let_def)
next
  case (Suc j)
  then have i: "i < length vals" by simp
  have step: "(if i = 0 then add_range vals (win_start window i) (i + 1) ([], 0)
               else del_range vals (win_start window (i - 1)) (win_start window i)
                      (add_range vals i (i + 1) s)) = win_state window vals i"
  proof (cases i)
    case 0
    then show ?thesis using i roll_step_first [of vals window] by simp
  next
    case (Suc k)
    then show ?thesis using i Suc.prems(2) roll_step_next [of k vals window] by simp
  qed
  have "roll_quantile_from window minp q vals (i + 1) (win_state window vals i) ! j
          = quantile_out minp q (win_state window vals (i + 1 + j))"
    using Suc.prems(1) by (intro Suc.IH) simp_all
  then show ?case
    using i step by (subst roll_quantile_from.simps) (simp add: Let_def)
qed

lemma nat_succ: "0 \<le> (k::int) \<Longrightarrow> nat (k + 1) = nat k + 1"
  by arith

lemma quantile_out_percentile:
  assumes "0 \<le> q"
  shows "quantile_out minp q (sort w, length w)
           = (if minp \<le> length w then Some (percentile_linear q w) else None)"
proof (cases "minp \<le> length w")
  case False
  then show ?thesis by (simp add: quantile_out_def)
next
  case True
  let ?h = "q * real (length w - 1)"
  have h0: "0 \<le> ?h" using assms by simp
  then have fl0: "0 \<le> \<lfloor>?h\<rfloor>" by simp
  then have rn: "real (nat \<lfloor>?h\<rfloor>) = real_of_int \<lfloor>?h\<rfloor>" by simp
  show ?thesis
  proof (cases "length w = 1")
    case True
    then show ?thesis using \<open>minp \<le> length w\<close>
      by (simp add: quantile_out_def percentile_linear_def)
  next
    case False
    show ?thesis
    proof (cases "?h = real (nat \<lfloor>?h\<rfloor>)")
      case True
      then have "real_of_int \<lfloor>?h\<rfloor> = ?h" using rn by simp
      then have "\<lceil>?h\<rceil> = \<lfloor>?h\<rfloor>" by (metis ceiling_of_int)
      then show ?thesis using True False \<open>minp \<le> length w\<close>
        by (simp add: quantile_out_def percentile_linear_def Let_def)
    next
      case neq: False
      then have "?h \<noteq> real_of_int \<lfloor>?h\<rfloor>" using rn by simp
      then have "\<lceil>?h\<rceil> = \<lfloor>?h\<rfloor> + 1" unfolding ceiling_altdef by (rule if_not_P)
      moreover have "nat (\<lfloor>?h\<rfloor> + 1) = nat \<lfloor>?h\<rfloor> + 1"
        using fl0 by (rule nat_succ)
      ultimately have "nat \<lceil>?h\<rceil> = nat \<lfloor>?h\<rfloor> + 1" by presburger
      then show ?thesis using neq False \<open>minp \<le> length w\<close>
        by (simp add: quantile_out_def percentile_linear_def Let_def algebra_simps)
    qed
  qed
qed

text \<open>
  C2. With the defaults of the signature, the raw reference at every row is what the
  specification's rule gives for quantile \<open>0.05\<close>, 100 periods and width 500: the
  quantile, by linear interpolation between order statistics, of the non-missing values
  among the last 500 rows up to that row (fewer at the start) when there are at least 100
  of them, and NaN when there are fewer.
\<close>

theorem vol_min_raw_is_percentile:
  assumes "i < length vol"
  shows "\<exists>raw. vol_floor_reference_raw vol = Inr raw \<and> length raw = length vol
           \<and> raw ! i = reference_rule (5 / 100) 100 500 (values_of vol) i"
proof -
  let ?vals = "values_of vol"
  let ?raw = "roll_quantile_from floor_days_default floor_min_periods_default
                floor_min_quant_default ?vals 0 ([], 0)"
  have 1: "vol_floor_reference_raw vol = Inr ?raw"
    by (simp add: vol_min_raw_def rolling_quantile_default)
  have 2: "length ?raw = length vol"
    by (simp add: length_roll_quantile_from length_values_of)
  have "?raw ! i = quantile_out floor_min_periods_default floor_min_quant_default
                     (win_state floor_days_default ?vals (0 + i))"
    using assms by (intro roll_quantile_from_nth) (simp_all add: length_values_of)
  also have "\<dots> = reference_rule (5 / 100) 100 500 ?vals i"
    using quantile_out_percentile [of floor_min_quant_default floor_min_periods_default
        "non_missing (trailing_window floor_days_default ?vals i)"]
    by (simp add: win_state_def floor_days_default_def floor_min_periods_default_def
        floor_min_quant_default_def reference_rule_def Let_def)
  finally show ?thesis using 1 2 by blast
qed

theorem vol_min_raw_is_percentile_witness:
  "(99::nat) < length (map (\<lambda>d. (d, Some (real_of_int d))) [0..99])
   \<and> projr (vol_floor_reference_raw (map (\<lambda>d. (d, Some (real_of_int d))) [0..99])) ! 99
       = Some (99 / 20)
   \<and> projr (vol_floor_reference_raw (map (\<lambda>d. (d, Some (real_of_int d))) [0..99])) ! 98
       = None"
proof -
  let ?vol = "map (\<lambda>d. (d, Some (real_of_int d))) [0..99] :: series"
  have len: "length ?vol = 100" by simp
  have a: "reference_rule (5 / 100) 100 500 (values_of ?vol) 99 = Some (99 / 20)"
    by code_simp
  have b: "reference_rule (5 / 100) 100 500 (values_of ?vol) 98 = None"
    by code_simp
  from vol_min_raw_is_percentile [of 99 ?vol] a len
  have 1: "projr (vol_floor_reference_raw ?vol) ! 99 = Some (99 / 20)"
    by auto
  from vol_min_raw_is_percentile [of 98 ?vol] b len
  have 2: "projr (vol_floor_reference_raw ?vol) ! 98 = None"
    by auto
  from len 1 2 show ?thesis by simp
qed

section \<open>Properties of VolatilityEstimator\<close>

lemma length_ewm_loop: "length (ewm_loop com minp st xs) = length xs"
  by (induction xs arbitrary: st) (simp_all add: Let_def)

lemma length_ewm_var: "length (ewm_var spn minp xs) = length xs"
  by (cases xs) (simp_all add: ewm_var_def length_ewm_loop)

lemma length_ewm_std: "length (ewm_std spn minp xs) = length xs"
  by (simp add: ewm_std_def length_ewm_var)

















section \<open>Properties of DailyAggregator\<close>

lemma mono_day_of: "mono day_of"
  by (rule monoI) (simp add: day_of_def zdiv_mono1)

lemma first_day_eq:
  "day_of (fold min (map fst rs) (fst r)) = Min (day_of ` fst ` set (r # rs))"
proof -
  have "fold min (map fst rs) (fst r) = Min (set (fst r # map fst rs))"
    by (rule Min.set_eq_fold [symmetric])
  also have "set (fst r # map fst rs) = fst ` set (r # rs)" by simp
  finally show ?thesis
    by (simp only: mono_Min_commute [OF mono_day_of, of "fst ` set (r # rs)"] finite_imageI
        finite_set image_is_empty set_empty list.distinct simp_thms)
qed

lemma last_day_eq:
  "day_of (fold max (map fst rs) (fst r)) = Max (day_of ` fst ` set (r # rs))"
proof -
  have "fold max (map fst rs) (fst r) = Max (set (fst r # map fst rs))"
    by (rule Max.set_eq_fold [symmetric])
  also have "set (fst r # map fst rs) = fst ` set (r # rs)" by simp
  finally show ?thesis
    by (simp only: mono_Max_commute [OF mono_day_of, of "fst ` set (r # rs)"] finite_imageI
        finite_set image_is_empty set_empty list.distinct simp_thms)
qed

lemma resample_D_mean_eq:
  assumes "rows \<noteq> []"
  shows "resample_D_mean rows =
           map (\<lambda>d. (d, bin_mean (map snd (filter (\<lambda>row. day_of (fst row) = d) rows))))
             [Min (day_of ` fst ` set rows)..Max (day_of ` fst ` set rows)]"
proof -
  from assms obtain r rs where rows: "rows = r # rs" by (cases rows) auto
  show ?thesis
    unfolding rows resample_D_mean_def list.case Let_def first_day_eq last_day_eq ..
qed

lemma aggregate_nonempty:
  assumes "raw \<noteq> []"
  shows "aggregate_to_day_based_prices raw = Inr (resample_D_mean raw)"
  using assms by (simp add: aggregate_to_day_based_prices_def set_index_UnixDateTime_def)

lemma aggregate_calendar:
  assumes "raw \<noteq> []"
  shows "\<exists>daily. aggregate_to_day_based_prices raw = Inr daily
    \<and> index_of daily = [Min (day_of ` fst ` set raw)..Max (day_of ` fst ` set raw)]
    \<and> (\<forall>k < length daily.
          values_of daily ! k =
            (let ps = map snd (filter (\<lambda>row. day_of (fst row) = index_of daily ! k) raw)
             in if ps = [] then None else Some (sum_list ps / real (length ps))))"
proof -
  let ?days = "[Min (day_of ` fst ` set raw)..Max (day_of ` fst ` set raw)]"
  let ?bin = "\<lambda>d. bin_mean (map snd (filter (\<lambda>row. day_of (fst row) = d) raw))"
  let ?daily = "map (\<lambda>d. (d, ?bin d)) ?days"
  have 1: "aggregate_to_day_based_prices raw = Inr ?daily"
    using aggregate_nonempty [OF assms] resample_D_mean_eq [OF assms] by simp
  have 2: "index_of ?daily = ?days"
    by (simp add: index_of_def comp_def)
  have 3: "values_of ?daily ! k =
            (let ps = map snd (filter (\<lambda>row. day_of (fst row) = index_of ?daily ! k) raw)
             in if ps = [] then None else Some (sum_list ps / real (length ps)))"
    if "k < length ?daily" for k
  proof -
    from that have k: "k < length ?days" by simp
    have "values_of ?daily ! k = ?bin (?days ! k)"
      using k by (simp add: values_of_def comp_def)
    then show ?thesis
      unfolding 2 by (simp add: bin_mean_def Let_def)
  qed
  from 1 2 3 show ?thesis by blast
qed

lemma aggregate_scenario_A:
  assumes "day_of t1 = d" "day_of t2 = d" "day_of t3 = d + 1"
  shows "aggregate_to_day_based_prices [(t1, 100), (t2, 102), (t3, 101)]
           = Inr [(d, Some 101), (d + 1, Some 101)]"
proof -
  let ?raw = "[(t1, 100), (t2, 102), (t3, 101)] :: raw_price list"
  have lo: "Min (day_of ` fst ` set ?raw) = d" using assms by simp
  have hi: "Max (day_of ` fst ` set ?raw) = d + 1" using assms by simp
  have days: "[d..d + 1] = [d, d + 1]"
    by (simp add: upto_rec1 [of d "d + 1"])
  show ?thesis
    using assms
    by (simp add: aggregate_nonempty resample_D_mean_eq lo hi days bin_mean_def)
qed

text \<open>
  C5. For a non-empty list of raw observations the index of the daily series is every
  calendar day from the first observed day to the last one, in order and without a gap;
  the cell of a day is the unweighted arithmetic mean of the prices observed on that day,
  and NaN when none was. Observations of 100 and 102 on one day and 101 on the next give
  101 on both days.
\<close>

theorem aggregate_daily_calendar_mean:
  "(raw \<noteq> [] \<longrightarrow>
      (\<exists>daily. aggregate_to_day_based_prices raw = Inr daily
        \<and> index_of daily = [Min (day_of ` fst ` set raw)..Max (day_of ` fst ` set raw)]
        \<and> (\<forall>k < length daily.
              values_of daily ! k =
                (let ps = map snd (filter (\<lambda>row. day_of (fst row) = index_of daily ! k) raw)
                 in if ps = [] then None else Some (sum_list ps / real (length ps))))))
   \<and> (day_of t1 = d \<and> day_of t2 = d \<and> day_of t3 = d + 1 \<longrightarrow>
        aggregate_to_day_based_prices [(t1, 100), (t2, 102), (t3, 101)]
          = Inr [(d, Some 101), (d + 1, Some 101)])"
  using aggregate_calendar [of raw] aggregate_scenario_A [of t1 d t2 t3] by blast

theorem aggregate_daily_calendar_mean_witness:
  "[(86400, 100), (100000, 102), (172805, 101), (432000, 7)] \<noteq> ([] :: raw_price list)
   \<and> index_of (projr (aggregate_to_day_based_prices
        [(86400, 100), (100000, 102), (172805, 101), (432000, 7)])) = [1, 2, 3, 4, 5]
   \<and> day_of 86400 = 1 \<and> day_of 100000 = 1 \<and> day_of 172805 = 1 + 1
   \<and> aggregate_to_day_based_prices [(86400, 100), (100000, 102), (172805, 101)]
        = Inr [(1, Some 101), (1 + 1, Some 101)]"
proof -
  let ?raw = "[(86400, 100), (100000, 102), (172805, 101), (432000, 7)] :: raw_price list"
  have d: "day_of 86400 = 1" "day_of 100000 = 1" "day_of 172805 = 1 + 1" "day_of 432000 = 5"
    by (simp_all add: day_of_def)
  have lo: "Min (day_of ` fst ` set ?raw) = 1" and hi: "Max (day_of ` fst ` set ?raw) = 5"
    by (simp_all add: d)
  have days: "[1..5] = [1, 2, 3, 4, 5 :: int]" by code_simp
  from aggregate_daily_calendar_mean [of ?raw 86400 1 100000 172805]
  have "index_of (projr (aggregate_to_day_based_prices ?raw)) = [1, 2, 3, 4, 5]"
    and "aggregate_to_day_based_prices [(86400, 100), (100000, 102), (172805, 101)]
        = Inr [(1, Some 101), (1 + 1, Some 101)]"
    using lo hi days d by auto
  then show ?thesis using d by simp
qed

text \<open>
  C6, as stated, fails: on an empty list of raw observations DailyAggregator raises.
\<close>

theorem aggregate_empty_counterexample:
  "aggregate_to_day_based_prices [] = Inl (KeyError ''UnixDateTime'')
   \<and> aggregate_to_day_based_prices [] \<noteq> Inr []"
  by (simp add: aggregate_to_day_based_prices_def set_index_UnixDateTime_def)

text \<open>
  C6, amended. On an empty list of raw observations DailyAggregator raises KeyError, the
  frame having no column \<open>UnixDateTime\<close>. On an empty series VolatilityEstimator and
  MinimumClamp return an empty series, and QuantileFloor raises IndexError at the
  assignment to row 0.
\<close>

theorem empty_input_stages:
  "aggregate_to_day_based_prices [] = Inl (KeyError ''UnixDateTime'')
   \<and> simple_ewvol_calc [] = []
   \<and> apply_min_vol [] = []
   \<and> vol_floor [] = Inl (IndexError ''iloc'')"
proof -
  have "roll_quantile_from floor_days_default floor_min_periods_default
          floor_min_quant_default [] 0 ([], 0) = []"
    by (subst roll_quantile_from.simps) simp
  then have "vol_floor [] = Inl (IndexError ''iloc'')"
    by (simp add: apply_vol_floor_def vol_min_filled_def vol_min_raw_def values_of_def
        rolling_quantile_default iloc0_set_def)
  moreover have "simple_ewvol_calc [] = []"
    by (simp add: simple_ewvol_calc_def with_values_def index_of_def)
  moreover have "apply_min_vol [] = []"
    by (simp add: apply_min_vol_def)
  moreover have "aggregate_to_day_based_prices [] = Inl (KeyError ''UnixDateTime'')"
    by (simp add: aggregate_to_day_based_prices_def set_index_UnixDateTime_def)
  ultimately show ?thesis by simp
qed

section \<open>Properties of the store query\<close>





lemma retrieve_one_page:
  assumes "tbl (length (issued w))
             \<lparr>q_instrument = instrument, q_start_time = start_time, q_end_time = now,
              q_exclusive_start_key = None\<rparr>
           = Inr \<lparr>resp_Items = Some items, resp_LastEvaluatedKey = None\<rparr>"
  shows "retrieve_prices_from_dynamodb tbl now instrument start_time w =
           Some (Inr items,
                 w\<lparr>issued := issued w @
                      [\<lparr>q_instrument = instrument, q_start_time = start_time,
                        q_end_time = now, q_exclusive_start_key = None\<rparr>]\<rparr>)"
proof -
  let ?q0 = "\<lparr>q_instrument = instrument, q_start_time = start_time, q_end_time = now,
              q_exclusive_start_key = None\<rparr>"
  let ?r = "\<lparr>resp_Items = Some items, resp_LastEvaluatedKey = None\<rparr>"
  have page: "query_page tbl ?q0 [] (issued w) = (Inr (?r, items), issued w @ [?q0])"
    using assms by (simp add: query_page_def)
  have "pagination tbl ?q0 ?r items (issued w @ [?q0]) = Some (Inr items, issued w @ [?q0])"
    by (subst pagination.simps) simp
  then have "try_block tbl ?q0 (issued w) = Some (Inr items, issued w @ [?q0])"
    by (simp add: try_block_def page)
  then show ?thesis by (simp add: retrieve_prices_from_dynamodb_def)
qed



section \<open>Properties of RequestHandler\<close>

lemma resample_D_mean_nonempty:
  assumes "rows \<noteq> []"
  shows "resample_D_mean rows \<noteq> []"
proof -
  let ?D = "day_of ` fst ` set rows"
  have fin: "finite ?D" and ne: "?D \<noteq> {}" using assms by simp_all
  then have "Min ?D \<le> Max ?D" by simp
  then have "[Min ?D..Max ?D] \<noteq> []" by simp
  then show ?thesis by (simp add: resample_D_mean_eq [OF assms])
qed

lemma length_simple_ewvol_calc: "length (simple_ewvol_calc prices) = length prices"
  by (simp add: simple_ewvol_calc_def length_with_values length_ewm_std length_values_of)

lemma vol_floor_total:
  assumes "vol \<noteq> []"
  shows "\<exists>out. vol_floor vol = Inr out"
  using vol_floor_reference_props [OF assms] vol_floor_eq(1) by blast

lemma numeric_stages_total:
  assumes "raw_prices \<noteq> []"
  shows "\<exists>prices out. aggregate_to_day_based_prices raw_prices = Inr prices
           \<and> vol_floor (apply_min_vol (simple_ewvol_calc prices)) = Inr out"
proof -
  let ?prices = "resample_D_mean raw_prices"
  have "length (apply_min_vol (simple_ewvol_calc ?prices)) = length ?prices"
    by (simp add: length_apply_min_vol length_simple_ewvol_calc)
  then have "apply_min_vol (simple_ewvol_calc ?prices) \<noteq> []"
    using resample_D_mean_nonempty [OF assms] by auto
  then show ?thesis
    using vol_floor_total aggregate_nonempty [OF assms] by blast
qed

lemma handler_after_retrieval:
  assumes "getitem data ''instrument'' = Inr instrument"
    and "getitem data ''start_time'' = Inr st"
    and "py_int st = Inr start_time"
  shows "robust_volatility_calculation tbl now data w =
     (case retrieve_prices_from_dynamodb tbl now instrument start_time w of
        None \<Rightarrow> None
      | Some (Inl e, w') \<Rightarrow> Some (Inl e, w')
      | Some (Inr raw_prices, w') \<Rightarrow>
          (if raw_prices = [] then Some (Inl (KeyError ''UnixDateTime''), w')
           else Some (Inr \<lparr>resp_rule = ''Robust Volatility Series'',
                           resp_instrument = instrument\<rparr>, w')))"
proof (cases "retrieve_prices_from_dynamodb tbl now instrument start_time w")
  case None
  then show ?thesis using assms by (simp add: robust_volatility_calculation_def)
next
  case (Some res)
  obtain r w' where res: "res = (r, w')" by (cases res)
  show ?thesis
  proof (cases r)
    case (Inl e)
    then show ?thesis using assms Some res by (simp add: robust_volatility_calculation_def)
  next
    case (Inr raw_prices)
    show ?thesis
    proof (cases "raw_prices = []")
      case True
      then show ?thesis
        using assms Some res Inr
        by (simp add: robust_volatility_calculation_def aggregate_to_day_based_prices_def
            set_index_UnixDateTime_def)
    next
      case False
      from numeric_stages_total [OF False] obtain prices out where
        "aggregate_to_day_based_prices raw_prices = Inr prices"
        "vol_floor (apply_min_vol (simple_ewvol_calc prices)) = Inr out" by blast
      then show ?thesis
        using assms Some res Inr False by (simp add: robust_volatility_calculation_def)
    qed
  qed
qed

lemma handler_success:
  assumes "robust_volatility_calculation tbl now data w = Some (Inr r, w')"
  shows "\<exists>instrument. getitem data ''instrument'' = Inr instrument
           \<and> r = \<lparr>resp_rule = ''Robust Volatility Series'', resp_instrument = instrument\<rparr>"
proof -
  from assms obtain instrument where i: "getitem data ''instrument'' = Inr instrument"
    by (cases "getitem data ''instrument''") (simp_all add: robust_volatility_calculation_def)
  from assms i obtain st where s: "getitem data ''start_time'' = Inr st"
    by (cases "getitem data ''start_time''") (simp_all add: robust_volatility_calculation_def)
  from assms i s obtain start_time where p: "py_int st = Inr start_time"
    by (cases "py_int st") (simp_all add: robust_volatility_calculation_def)
  from assms have "r = \<lparr>resp_rule = ''Robust Volatility Series'', resp_instrument = instrument\<rparr>"
    unfolding handler_after_retrieval [OF i s p]
    by (auto split: option.splits sum.splits if_splits)
  with i show ?thesis by blast
qed

lemma handler_one_page:
  assumes "getitem data ''instrument'' = Inr instrument"
    and "getitem data ''start_time'' = Inr st"
    and "py_int st = Inr start_time"
    and "tbl (length (issued w))
             \<lparr>q_instrument = instrument, q_start_time = start_time, q_end_time = now,
              q_exclusive_start_key = None\<rparr>
           = Inr \<lparr>resp_Items = Some items, resp_LastEvaluatedKey = None\<rparr>"
    and "items \<noteq> []"
  shows "robust_volatility_calculation tbl now data w =
           Some (Inr \<lparr>resp_rule = ''Robust Volatility Series'', resp_instrument = instrument\<rparr>,
                 w\<lparr>issued := issued w @
                      [\<lparr>q_instrument = instrument, q_start_time = start_time,
                        q_end_time = now, q_exclusive_start_key = None\<rparr>]\<rparr>)"
proof -
  note r = retrieve_one_page [of tbl w instrument start_time now items, OF assms(4)]
  show ?thesis
    unfolding handler_after_retrieval [OF assms(1,2,3)] r using assms(5) by simp
qed


text \<open>
  C9. Two runs of the handler that both return a response return the same response when
  the requests name the same instrument, whatever the table answered and whatever the
  clock said: the response is the fixed rule name and the echoed instrument.
\<close>

theorem response_echoes_instrument_only:
  assumes "robust_volatility_calculation tbl1 now1 data1 w1 = Some (Inr r1, w1')"
    and "robust_volatility_calculation tbl2 now2 data2 w2 = Some (Inr r2, w2')"
    and "getitem data1 ''instrument'' = getitem data2 ''instrument''"
  shows "r1 = r2
    \<and> (\<exists>instrument. getitem data1 ''instrument'' = Inr instrument
          \<and> r1 = \<lparr>resp_rule = ''Robust Volatility Series'', resp_instrument = instrument\<rparr>)"
  using handler_success [OF assms(1)] handler_success [OF assms(2)] assms(3) by auto

theorem response_echoes_instrument_only_witness:
  "robust_volatility_calculation
     (\<lambda>k q. Inr \<lparr>resp_Items = Some [(86400, 100)], resp_LastEvaluatedKey = None\<rparr>) 1000000
     (JObj [(''instrument'', JStr ''X''), (''start_time'', JInt 0)])
     \<lparr>logged = [], issued = []\<rparr>
    = Some (Inr \<lparr>resp_rule = ''Robust Volatility Series'', resp_instrument = JStr ''X''\<rparr>,
            \<lparr>logged = [],
             issued = [\<lparr>q_instrument = JStr ''X'', q_start_time = 0,
                        q_end_time = 1000000, q_exclusive_start_key = None\<rparr>]\<rparr>)
   \<and> robust_volatility_calculation
     (\<lambda>k q. Inr \<lparr>resp_Items = Some [(86400, 5), (200000, 7)], resp_LastEvaluatedKey = None\<rparr>)
     2000000
     (JObj [(''instrument'', JStr ''X''), (''start_time'', JInt 0)])
     \<lparr>logged = [], issued = []\<rparr>
    = Some (Inr \<lparr>resp_rule = ''Robust Volatility Series'', resp_instrument = JStr ''X''\<rparr>,
            \<lparr>logged = [],
             issued = [\<lparr>q_instrument = JStr ''X'', q_start_time = 0,
                        q_end_time = 2000000, q_exclusive_start_key = None\<rparr>]\<rparr>)
   \<and> fst (the (robust_volatility_calculation
     (\<lambda>k q. Inr \<lparr>resp_Items = Some [(86400, 100)], resp_LastEvaluatedKey = None\<rparr>) 1000000
     (JObj [(''instrument'', JStr ''X''), (''start_time'', JInt 0)])
     \<lparr>logged = [], issued = []\<rparr>))
    = fst (the (robust_volatility_calculation
     (\<lambda>k q. Inr \<lparr>resp_Items = Some [(86400, 5), (200000, 7)], resp_LastEvaluatedKey = None\<rparr>)
     2000000
     (JObj [(''instrument'', JStr ''X''), (''start_time'', JInt 0)])
     \<lparr>logged = [], issued = []\<rparr>))"
proof -
  let ?t1 = "(\<lambda>k q. Inr \<lparr>resp_Items = Some [(86400, 100)], resp_LastEvaluatedKey = None\<rparr>)
               :: table"
  let ?t2 = "(\<lambda>k q. Inr \<lparr>resp_Items = Some [(86400, 5), (200000, 7)],
                          resp_LastEvaluatedKey = None\<rparr>) :: table"
  let ?data = "JObj [(''instrument'', JStr ''X''), (''start_time'', JInt 0)]"
  let ?w = "\<lparr>logged = [], issued = []\<rparr>"
  let ?r = "\<lparr>resp_rule = ''Robust Volatility Series'', resp_instrument = JStr ''X''\<rparr>"
  let ?w1 = "\<lparr>logged = [],
             issued = [\<lparr>q_instrument = JStr ''X'', q_start_time = 0,
                        q_end_time = 1000000, q_exclusive_start_key = None\<rparr>]\<rparr>"
  let ?w2 = "\<lparr>logged = [],
             issued = [\<lparr>q_instrument = JStr ''X'', q_start_time = 0,
                        q_end_time = 2000000, q_exclusive_start_key = None\<rparr>]\<rparr>"
  have run1: "robust_volatility_calculation ?t1 1000000 ?data ?w = Some (Inr ?r, ?w1)"
    by (subst handler_one_page [where instrument = "JStr ''X''" and st = "JInt 0"
          and start_time = 0 and items = "[(86400, 100)]"])
      (simp_all add: getitem_def py_int_def)
  have run2: "robust_volatility_calculation ?t2 2000000 ?data ?w = Some (Inr ?r, ?w2)"
    by (subst handler_one_page [where instrument = "JStr ''X''" and st = "JInt 0"
          and start_time = 0 and items = "[(86400, 5), (200000, 7)]"])
      (simp_all add: getitem_def py_int_def)
  from response_echoes_instrument_only [OF run1 run2 refl]
  have "fst (the (robust_volatility_calculation ?t1 1000000 ?data ?w))
      = fst (the (robust_volatility_calculation ?t2 2000000 ?data ?w))"
    by (simp add: run1 run2)
  then show ?thesis using run1 run2 by simp
qed












end
